theory Spec2Isabelle
  imports Main "HOL-Library.Char_ord" "HOL-Library.List_Lexorder"
begin

section \<open>The third-party licence report generator\<close>

text \<open>
  A shallow embedding of \<^verbatim>\<open>scripts/generate_third_party_license_file.py\<close>.

  Python \<^verbatim>\<open>str\<close> values are modelled as \<^typ>\<open>string\<close>; a \<^typ>\<open>char\<close> stands for a
  code point below 256, and the character classes below are Python's classes on that
  range. Strings are compared as Python compares them, lexicographically by code point
  (the orders of \<^verbatim>\<open>Char_ord\<close> and \<^verbatim>\<open>List_Lexorder\<close>).
  Every exception the script can raise is a value of \<open>error\<close>.
\<close>

subsection \<open>Data\<close>

datatype error =
    AttributeError
  | NameError
  | KeyError
  | OSError
  | FileNotFoundError
  | CalledProcessError int
  | JSONDecodeError

text \<open>The \<^verbatim>\<open>licenses\<close> field of the scanner is a string or a list of strings.\<close>

datatype licenses = LicStr string | LicList "string list"

text \<open>
  One metadata object of the scanner's output, with the three fields the script reads;
  \<open>None\<close> is an absent field. The fields \<^verbatim>\<open>repository\<close> and \<^verbatim>\<open>licenseFile\<close> are
  strings when present, as the scanner emits them.
\<close>

record dep_meta =
  repository :: "string option"
  licenses :: "licenses option"
  licenseFile :: "string option"

text \<open>One element of \<^verbatim>\<open>formatted_deps\<close>.\<close>

record report_record =
  Component :: string
  Origin :: string
  License :: licenses
  Copyright :: string

text \<open>
  The members of the JSON object printed by the scanner, in document order.
  \<^verbatim>\<open>json.loads\<close> builds a dict from them, in which a later member replaces an earlier
  one with the same key.
\<close>

type_synonym deps = "(string \<times> dep_meta) list"

definition dict_keys :: "deps \<Rightarrow> string list" where
  "dict_keys d = remdups (map fst d)"

definition dict_get :: "deps \<Rightarrow> string \<Rightarrow> dep_meta option" where
  "dict_get d k = map_of (rev d) k"

subsection \<open>String primitives\<close>

definition startswith :: "string \<Rightarrow> string \<Rightarrow> bool" where
  "startswith s p = (take (length p) s = p)"

definition LF :: char where
  "LF = CHR 0x0A"

definition CR :: char where
  "CR = CHR 0x0D"

definition word_char :: "char \<Rightarrow> bool" where
  \<comment> \<open>\<^verbatim>\<open>\w\<close> of a \<^verbatim>\<open>str\<close> pattern: alphanumeric or underscore.\<close>
  "word_char c =
     (let n = (of_char c :: nat) in
        (48 \<le> n \<and> n \<le> 57) \<or> (65 \<le> n \<and> n \<le> 90) \<or> n = 95 \<or> (97 \<le> n \<and> n \<le> 122) \<or>
        n = 170 \<or> n = 178 \<or> n = 179 \<or> n = 181 \<or> n = 185 \<or> n = 186 \<or>
        (188 \<le> n \<and> n \<le> 190) \<or> (192 \<le> n \<and> n \<le> 214) \<or> (216 \<le> n \<and> n \<le> 246) \<or>
        248 \<le> n)"

definition name_char :: "char \<Rightarrow> bool" where
  \<comment> \<open>the class \<^verbatim>\<open>[\w-]\<close>\<close>
  "name_char c = (word_char c \<or> c = CHR ''-'')"

definition is_space :: "char \<Rightarrow> bool" where
  \<comment> \<open>the characters \<^verbatim>\<open>str.strip()\<close> removes\<close>
  "is_space c =
     (let n = (of_char c :: nat) in
        (9 \<le> n \<and> n \<le> 13) \<or> (28 \<le> n \<and> n \<le> 32) \<or> n = 133 \<or> n = 160)"

definition strip :: "string \<Rightarrow> string" where
  "strip s = rev (dropWhile is_space (rev (dropWhile is_space s)))"

text \<open>
  \<^verbatim>\<open>re.search(r"https:\/\/(.*)", s)\<close>: the leftmost occurrence of \<^verbatim>\<open>https://\<close>; group 1
  is the rest of that line, since \<^verbatim>\<open>.\<close> matches every character but the line feed.
  \<open>None\<close> is Python's \<^verbatim>\<open>None\<close> (no match).
\<close>

fun re_search_https :: "string \<Rightarrow> string option" where
  "re_search_https [] = None"
| "re_search_https (c # cs) =
     (if startswith (c # cs) ''https://''
      then Some (takeWhile (\<lambda>x. x \<noteq> LF) (drop 8 (c # cs)))
      else re_search_https cs)"

text \<open>
  \<^verbatim>\<open>re.search(r"([\w-]+)@", s)\<close>. At one start position the group first takes the
  longest run of \<^verbatim>\<open>[\w-]\<close> characters, of length \<open>n\<close>, and then backtracks to the lengths
  \<open>n - 1, \<dots>, 1\<close> until an \<^verbatim>\<open>@\<close> follows; the search tries the start positions from
  left to right.
\<close>

fun backtrack_name :: "string \<Rightarrow> nat \<Rightarrow> string option" where
  "backtrack_name s 0 = None"
| "backtrack_name s (Suc k) =
     (if startswith (drop (Suc k) s) ''@'' then Some (take (Suc k) s)
      else backtrack_name s k)"

definition match_name :: "string \<Rightarrow> string option" where
  "match_name s = backtrack_name s (length (takeWhile name_char s))"

fun re_search_name :: "string \<Rightarrow> string option" where
  "re_search_name [] = None"
| "re_search_name (c # cs) =
     (case match_name (c # cs) of
        Some g \<Rightarrow> Some g
      | None \<Rightarrow> re_search_name cs)"

subsection \<open>Origin resolution\<close>

definition REPO_EXCEPTIONS :: "string \<rightharpoonup> string" where
  "REPO_EXCEPTIONS = [''eyes'' \<mapsto> ''https://github.com/cloudhead/eyes.js'']"

definition resolved_repo :: "string \<Rightarrow> dep_meta \<Rightarrow> string" where
  \<comment> \<open>line 11: \<^verbatim>\<open>dep_meta.get("repository", REPO_EXCEPTIONS.get(dep_name, "NO REPO"))\<close>\<close>
  "resolved_repo dep_name m =
     (case repository m of
        Some r \<Rightarrow> r
      | None \<Rightarrow> (case REPO_EXCEPTIONS dep_name of Some u \<Rightarrow> u | None \<Rightarrow> ''NO REPO''))"

definition get_repo_url :: "string \<Rightarrow> dep_meta \<Rightarrow> error + string" where
  "get_repo_url dep_name m =
     (let repo_url = resolved_repo dep_name m in
      if startswith repo_url ''https''
      then (case re_search_https repo_url of
              None \<Rightarrow> Inl AttributeError
            | Some g \<Rightarrow> Inr g)
      else Inr repo_url)"

subsection \<open>Copyright extraction and the main loop\<close>

text \<open>
  The file system is an association list from paths to the decoded text of the file; a
  path without an entry is a file that does not exist, and \<^verbatim>\<open>open\<close> raises
  \<^verbatim>\<open>FileNotFoundError\<close> on it. A file opened in text mode translates
  \<^verbatim>\<open>\r\n\<close> and \<^verbatim>\<open>\r\<close> to \<^verbatim>\<open>\n\<close>, and iterating over it yields the lines with their
  terminators.
\<close>

type_synonym files = "(string \<times> string) list"

definition read_file :: "files \<Rightarrow> string \<Rightarrow> string option" where
  "read_file fs p = map_of fs p"

definition write_file :: "files \<Rightarrow> string \<Rightarrow> string \<Rightarrow> files" where
  \<comment> \<open>opening with mode \<^verbatim>\<open>"w"\<close> replaces the file\<close>
  "write_file fs p text = (p, text) # filter (\<lambda>e. fst e \<noteq> p) fs"

fun universal_newlines :: "string \<Rightarrow> string" where
  "universal_newlines [] = []"
| "universal_newlines [c] = [if c = CR then LF else c]"
| "universal_newlines (c # d # ds) =
     (if c = CR \<and> d = LF then LF # universal_newlines ds
      else if c = CR then LF # universal_newlines (d # ds)
      else c # universal_newlines (d # ds))"

fun split_lines :: "string \<Rightarrow> string \<Rightarrow> string list" where
  \<comment> \<open>the first argument is the line read so far, reversed\<close>
  "split_lines acc [] = (if acc = [] then [] else [rev acc])"
| "split_lines acc (c # cs) =
     (if c = LF then rev (c # acc) # split_lines [] cs
      else split_lines (c # acc) cs)"

definition file_lines :: "string \<Rightarrow> string list" where
  "file_lines text = split_lines [] (universal_newlines text)"

definition is_copyright_line :: "string \<Rightarrow> bool" where
  \<comment> \<open>\<^verbatim>\<open>re.match(r"Copyright ", line)\<close>\<close>
  "is_copyright_line line = startswith line ''Copyright ''"

text \<open>
  Lines 34 to 38. The variable \<^verbatim>\<open>dep_copyright\<close> is \<open>None\<close> while it is unbound; the result
  is its binding after the statement.
\<close>

definition extract_copyright :: "files \<Rightarrow> string \<Rightarrow> string option \<Rightarrow> error + string option" where
  "extract_copyright fs license_file dep_copyright =
     (if license_file \<noteq> [] then
        (case read_file fs license_file of
           None \<Rightarrow> Inl FileNotFoundError
         | Some text \<Rightarrow>
             (let matches = filter is_copyright_line (file_lines text) in
              if length matches > 0 then Inr (Some (strip (matches ! 0)))
              else Inr dep_copyright))
      else Inr dep_copyright)"

text \<open>
  The body of the loop of lines 25 to 47, on the pair of \<^verbatim>\<open>dep_copyright\<close> and
  \<^verbatim>\<open>formatted_deps\<close>. Reading the unbound \<^verbatim>\<open>dep_copyright\<close> at line 45 raises
  \<^verbatim>\<open>NameError\<close>.
\<close>

definition loop_body ::
  "files \<Rightarrow> deps \<Rightarrow> string \<Rightarrow> string option \<times> report_record list
     \<Rightarrow> error + (string option \<times> report_record list)" where
  "loop_body fs d dep st =
     (case dict_get d dep of
        None \<Rightarrow> Inl KeyError
      | Some m \<Rightarrow>
          (case re_search_name dep of
             None \<Rightarrow> Inl AttributeError
           | Some dep_name \<Rightarrow>
               (case get_repo_url dep_name m of
                  Inl e \<Rightarrow> Inl e
                | Inr repo_url \<Rightarrow>
                    (let license_file = (case licenseFile m of Some p \<Rightarrow> p | None \<Rightarrow> [])
                     in case extract_copyright fs license_file (fst st) of
                          Inl e \<Rightarrow> Inl e
                        | Inr dep_copyright \<Rightarrow>
                            (case dep_copyright of
                               None \<Rightarrow> Inl NameError
                             | Some c \<Rightarrow>
                                 Inr (dep_copyright,
                                      snd st @
                                      [\<lparr>Component = dep_name, Origin = repo_url,
                                        License = (case licenses m of
                                                     Some l \<Rightarrow> l
                                                   | None \<Rightarrow> LicStr ''LICENSE NOT FOUND''),
                                        Copyright = c\<rparr>]))))))"

fun for_loop ::
  "files \<Rightarrow> deps \<Rightarrow> string list \<Rightarrow> string option \<times> report_record list
     \<Rightarrow> error + (string option \<times> report_record list)" where
  "for_loop fs d [] st = Inr st"
| "for_loop fs d (dep # rest) st =
     (case loop_body fs d dep st of
        Inl e \<Rightarrow> Inl e
      | Inr st' \<Rightarrow> for_loop fs d rest st')"

definition alphabetized_dep_names :: "deps \<Rightarrow> string list" where
  "alphabetized_dep_names d = sort (dict_keys d)"

definition build_report :: "files \<Rightarrow> deps \<Rightarrow> error + report_record list" where
  \<comment> \<open>lines 22 to 47\<close>
  "build_report fs d =
     (case for_loop fs d (alphabetized_dep_names d) (None, []) of
        Inl e \<Rightarrow> Inl e
      | Inr st \<Rightarrow> Inr (snd st))"

subsection \<open>The whole run\<close>

text \<open>
  What running the scanner gives: it cannot be started, or it exits with a return code
  and the captured standard output.
\<close>

datatype proc_result = NotStarted | Exited int string

definition check_output :: "proc_result \<Rightarrow> error + string" where
  "check_output p =
     (case p of
        NotStarted \<Rightarrow> Inl FileNotFoundError
      | Exited rc out \<Rightarrow> if rc \<noteq> 0 then Inl (CalledProcessError rc) else Inr out)"

definition csv_path :: string where
  "csv_path = ''LICENSE-3rdparty.csv''"

text \<open>
  The script from line 17 on. The parameters are the library functions and the
  environment: \<open>loads\<close> is \<^verbatim>\<open>json.loads\<close> (\<open>None\<close> when the text is not valid JSON),
  \<open>render\<close> is the text \<^verbatim>\<open>csv.DictWriter\<close> writes for the header and the rows,
  \<open>writable\<close> tells whether the output file can be opened for writing, \<open>scan\<close> is the
  outcome of the scanner and \<open>fs\<close> the file system. The result is the exception that
  ended the run, if any, and the file system after the run.
\<close>

definition main ::
  "(string \<Rightarrow> deps option) \<Rightarrow> (report_record list \<Rightarrow> string) \<Rightarrow> bool \<Rightarrow> proc_result \<Rightarrow> files
     \<Rightarrow> error option \<times> files" where
  "main loads render writable scan fs =
     (case check_output scan of
        Inl e \<Rightarrow> (Some e, fs)
      | Inr raw_output \<Rightarrow>
          (case loads raw_output of
             None \<Rightarrow> (Some JSONDecodeError, fs)
           | Some d \<Rightarrow>
               (case build_report fs d of
                  Inl e \<Rightarrow> (Some e, fs)
                | Inr formatted_deps \<Rightarrow>
                    if writable then (None, write_file fs csv_path (render formatted_deps))
                    else (Some OSError, fs))))"

subsection \<open>The specification's wording\<close>


definition trim_trailing :: "string \<Rightarrow> string" where
  "trim_trailing line = rev (dropWhile is_space (rev line))"

section \<open>Properties\<close>

subsection \<open>The name pattern\<close>


lemma at_not_name_char: "\<not> name_char CHR ''@''"
  by (simp add: name_char_def word_char_def)

lemma startswith_at: "startswith s ''@'' \<longleftrightarrow> (\<exists>r. s = CHR ''@'' # r)"
  by (cases s) (auto simp: startswith_def)

lemma backtrack_name_inside:
  "k < length (takeWhile name_char s) \<Longrightarrow> backtrack_name s k = None"
proof (induction k)
  case 0
  then show ?case by simp
next
  case (Suc k)
  let ?n = "length (takeWhile name_char s)"
  from Suc.prems have lt: "Suc k < ?n" .
  have "?n \<le> length s" by (rule length_takeWhile_le)
  with lt have len: "Suc k < length s" by simp
  have "takeWhile name_char s ! Suc k = s ! Suc k"
    using lt by (rule takeWhile_nth)
  moreover have "name_char (takeWhile name_char s ! Suc k)"
    using lt by (metis nth_mem set_takeWhileD)
  ultimately have nc: "name_char (s ! Suc k)" by simp
  have "drop (Suc k) s = s ! Suc k # drop (Suc (Suc k)) s"
    using len by (simp add: Cons_nth_drop_Suc)
  with nc at_not_name_char have "\<not> startswith (drop (Suc k) s) ''@''"
    by (auto simp: startswith_at)
  moreover from Suc have "backtrack_name s k = None" by simp
  ultimately show ?case by simp
qed

lemma match_name_greedy:
  "match_name s =
     (if takeWhile name_char s \<noteq> [] \<and> startswith (dropWhile name_char s) ''@''
      then Some (takeWhile name_char s) else None)"
proof (cases "length (takeWhile name_char s)")
  case 0
  then show ?thesis by (simp add: match_name_def)
next
  case (Suc k)
  have d: "drop (Suc k) s = dropWhile name_char s"
    using Suc by (metis dropWhile_eq_drop)
  have t: "take (Suc k) s = takeWhile name_char s"
    using Suc by (metis takeWhile_eq_take)
  have ne: "takeWhile name_char s \<noteq> []" using Suc by auto
  have "backtrack_name s k = None"
    using Suc by (intro backtrack_name_inside) simp
  then show ?thesis
    using Suc d t ne by (simp add: match_name_def)
qed


lemma re_search_name_SomeD:
  "re_search_name s = Some g \<Longrightarrow>
     \<exists>i. 0 < i \<and> i < length s \<and> s ! i = CHR ''@'' \<and> name_char (s ! (i - 1))"
proof (induction s)
  case Nil
  then show ?case by simp
next
  case (Cons c cs)
  show ?case
  proof (cases "match_name (c # cs)")
    case None
    with Cons.prems have "re_search_name cs = Some g" by simp
    from Cons.IH[OF this] obtain i where
      i: "0 < i" "i < length cs" "cs ! i = CHR ''@''" "name_char (cs ! (i - 1))" by blast
    then have "0 < Suc i \<and> Suc i < length (c # cs) \<and> (c # cs) ! Suc i = CHR ''@'' \<and>
        name_char ((c # cs) ! (Suc i - 1))"
      by (cases i) auto
    then show ?thesis by blast
  next
    case (Some h)
    let ?s = "c # cs"
    let ?t = "takeWhile name_char ?s"
    from Some have ne: "?t \<noteq> []" and sw: "startswith (dropWhile name_char ?s) ''@''"
      by (auto simp: match_name_greedy split: if_splits)
    from sw obtain r where r: "dropWhile name_char ?s = CHR ''@'' # r"
      by (auto simp: startswith_at)
    have s: "?s = ?t @ CHR ''@'' # r"
      using r takeWhile_dropWhile_id[of name_char ?s] by simp
    let ?i = "length ?t"
    have 1: "0 < ?i" using ne by simp
    have 2: "?i < length ?s" by (subst (2) s) simp
    have 3: "?s ! ?i = CHR ''@''" by (subst s) (simp add: nth_append del: takeWhile.simps)
    have "?s ! (?i - 1) = ?t ! (?i - 1)"
      using 1 by (intro takeWhile_nth[symmetric]) simp
    moreover have "?t ! (?i - 1) \<in> set ?t" using 1 by (intro nth_mem) simp
    then have "name_char (?t ! (?i - 1))" by (rule set_takeWhileD[THEN conjunct2])
    ultimately have 4: "name_char (?s ! (?i - 1))" by simp
    from 1 2 3 4 show ?thesis by blast
  qed
qed


subsection \<open>One iteration of the loop\<close>

lemma loop_body_InrD:
  assumes "loop_body fs d dep st = Inr st'"
  shows "\<exists>m n u c. dict_get d dep = Some m \<and> re_search_name dep = Some n \<and>
           get_repo_url n m = Inr u \<and>
           extract_copyright fs (case licenseFile m of Some p \<Rightarrow> p | None \<Rightarrow> []) (fst st)
             = Inr (Some c) \<and>
           st' = (Some c, snd st @
                   [\<lparr>Component = n, Origin = u,
                     License = (case licenses m of Some l \<Rightarrow> l
                                | None \<Rightarrow> LicStr ''LICENSE NOT FOUND''),
                     Copyright = c\<rparr>])"
  using assms
  by (auto simp: loop_body_def Let_def split: option.splits sum.splits)

subsection \<open>The component name\<close>




subsection \<open>Origin resolution\<close>

lemma REPO_EXCEPTIONS_eq: "REPO_EXCEPTIONS n = (if n = ''eyes'' then Some ''https://github.com/cloudhead/eyes.js'' else None)"
  by (simp add: REPO_EXCEPTIONS_def)

lemma get_repo_url_unchanged:
  "\<not> startswith (resolved_repo n m) ''https'' \<Longrightarrow> get_repo_url n m = Inr (resolved_repo n m)"
  by (simp add: get_repo_url_def)

lemma re_search_https_prefix:
  "re_search_https (''https://'' @ r) = Some (takeWhile (\<lambda>x. x \<noteq> LF) r)"
  by (simp add: startswith_def)

lemma get_repo_url_strips_scheme:
  assumes "resolved_repo n m = ''https://'' @ r"
  shows "get_repo_url n m = Inr (takeWhile (\<lambda>x. x \<noteq> LF) r)"
  unfolding get_repo_url_def Let_def assms re_search_https_prefix
  by (simp add: startswith_def)

text \<open>
  C5. The value \<^verbatim>\<open>get_repo_url\<close> works on is the metadata's own \<^verbatim>\<open>repository\<close> field when
  there is one, whatever the name is; otherwise the entry of \<^verbatim>\<open>REPO_EXCEPTIONS\<close> for the
  name, when there is one; otherwise the sentinel \<^verbatim>\<open>NO REPO\<close>. (That the result is computed
  from a value \<open>v\<close> is expressed as: it is the result for a metadata whose field is \<open>v\<close>.)
  The table has the one entry \<^verbatim>\<open>eyes\<close>, so without the field the name \<^verbatim>\<open>eyes\<close> gives
  \<^verbatim>\<open>github.com/cloudhead/eyes.js\<close> and every other name gives \<^verbatim>\<open>NO REPO\<close>.
\<close>

theorem get_repo_url_resolution_order:
  "(repository m = Some r \<longrightarrow>
      get_repo_url n m = get_repo_url n' (m'\<lparr>repository := Some r\<rparr>)) \<and>
   (repository m = None \<longrightarrow> REPO_EXCEPTIONS n = Some u \<longrightarrow>
      get_repo_url n m = get_repo_url n' (m'\<lparr>repository := Some u\<rparr>)) \<and>
   (repository m = None \<longrightarrow> REPO_EXCEPTIONS n = None \<longrightarrow>
      get_repo_url n m = Inr ''NO REPO'') \<and>
   (repository m = None \<longrightarrow>
      get_repo_url ''eyes'' m = Inr ''github.com/cloudhead/eyes.js'') \<and>
   (repository m = None \<longrightarrow> n \<noteq> ''eyes'' \<longrightarrow> get_repo_url n m = Inr ''NO REPO'')"
proof -
  have eyes: "repository m = None \<Longrightarrow>
      get_repo_url ''eyes'' m = Inr ''github.com/cloudhead/eyes.js''"
    by (simp add: get_repo_url_def resolved_repo_def REPO_EXCEPTIONS_eq startswith_def LF_def)
  have none: "repository m = None \<Longrightarrow> REPO_EXCEPTIONS n = None \<Longrightarrow>
      get_repo_url n m = Inr ''NO REPO''" for n
    by (simp add: get_repo_url_def resolved_repo_def startswith_def)
  have other: "n \<noteq> ''eyes'' \<Longrightarrow> REPO_EXCEPTIONS n = None"
    by (simp add: REPO_EXCEPTIONS_eq)
  have own: "repository m = Some r \<Longrightarrow>
      get_repo_url n m = get_repo_url n' (m'\<lparr>repository := Some r\<rparr>)"
    by (simp add: get_repo_url_def resolved_repo_def)
  have table: "repository m = None \<Longrightarrow> REPO_EXCEPTIONS n = Some u \<Longrightarrow>
      get_repo_url n m = get_repo_url n' (m'\<lparr>repository := Some u\<rparr>)"
    by (simp add: get_repo_url_def resolved_repo_def)
  from own table none[of n] eyes none[OF _ other] show ?thesis
    by blast
qed

theorem get_repo_url_resolution_order_witness:
  "get_repo_url ''eyes'' \<lparr>repository = Some ''github.com/x/eyes'', licenses = None,
                           licenseFile = None\<rparr>
     = Inr ''github.com/x/eyes'' \<and>
   get_repo_url ''eyes'' \<lparr>repository = None, licenses = None, licenseFile = None\<rparr>
     = Inr ''github.com/cloudhead/eyes.js'' \<and>
   get_repo_url ''foo'' \<lparr>repository = None, licenses = None, licenseFile = None\<rparr>
     = Inr ''NO REPO''"
proof -
  let ?m = "\<lparr>repository = Some ''github.com/x/eyes'', licenses = None, licenseFile = None\<rparr>"
  let ?e = "\<lparr>repository = None, licenses = None, licenseFile = None\<rparr>"
  have a: "get_repo_url ''eyes'' ?m = get_repo_url ''foo'' (?e\<lparr>repository := Some ''github.com/x/eyes''\<rparr>)"
    using get_repo_url_resolution_order[of ?m "''github.com/x/eyes''" "''eyes''" "''foo''" ?e]
    by simp
  have b: "get_repo_url ''foo'' (?e\<lparr>repository := Some ''github.com/x/eyes''\<rparr>) = Inr ''github.com/x/eyes''"
    by (simp add: get_repo_url_unchanged resolved_repo_def startswith_def)
  have c: "get_repo_url ''eyes'' ?e = Inr ''github.com/cloudhead/eyes.js''"
    using get_repo_url_resolution_order[of ?e _ "''eyes''"] by simp
  have d: "get_repo_url ''foo'' ?e = Inr ''NO REPO''"
    using get_repo_url_resolution_order[of ?e _ "''foo''"] by simp
  from a b c d show ?thesis by simp
qed

text \<open>
  C3. The claim is that \<^verbatim>\<open>get_repo_url\<close> returns a string for every string value of the
  \<^verbatim>\<open>repository\<close> field. The script tests \<^verbatim>\<open>startswith("https")\<close> and then takes
  \<^verbatim>\<open>.group(1)\<close> of a search for \<^verbatim>\<open>https://\<close>; on a value that begins with \<^verbatim>\<open>https\<close> and
  has no \<^verbatim>\<open>https://\<close> in it the search gives \<^verbatim>\<open>None\<close> and the call raises
  \<^verbatim>\<open>AttributeError\<close>. Here the value is \<^verbatim>\<open>https:github.com/x/foo\<close>.
\<close>

theorem get_repo_url_raises:
  "get_repo_url ''foo'' \<lparr>repository = Some ''https:github.com/x/foo'', licenses = None,
                          licenseFile = None\<rparr>
     = Inl AttributeError"
  by (simp add: get_repo_url_def resolved_repo_def startswith_def)

text \<open>
  C4. The claim is that a resolved value that does not begin with \<^verbatim>\<open>https://\<close> is returned
  unchanged. The host and path \<^verbatim>\<open>https-mirror.example.com/x/foo\<close> does not begin with
  \<^verbatim>\<open>https://\<close>, and the call raises \<^verbatim>\<open>AttributeError\<close> instead of returning it: the test
  of line 12 is on the prefix \<^verbatim>\<open>https\<close>, the pattern of line 13 on \<^verbatim>\<open>https://\<close>.
\<close>

theorem get_repo_url_not_unchanged:
  "\<not> startswith ''https-mirror.example.com/x/foo'' ''https://'' \<and>
   get_repo_url ''foo'' \<lparr>repository = Some ''https-mirror.example.com/x/foo'', licenses = None,
                          licenseFile = None\<rparr>
     = Inl AttributeError"
  by (simp add: get_repo_url_def resolved_repo_def startswith_def)

subsection \<open>The loop\<close>

text \<open>
  An iteration uses \<^verbatim>\<open>formatted_deps\<close> only to append to it, so what it appends is what it
  appends to the empty list.
\<close>

lemma loop_body_append:
  assumes "loop_body fs d dep st = Inr st'"
  shows "\<exists>r. st' = (Some (Copyright r), snd st @ [r]) \<and>
             loop_body fs d dep (fst st, []) = Inr (Some (Copyright r), [r])"
  using assms
  by (auto simp: loop_body_def Let_def split: option.splits sum.splits)

lemma for_loop_InrD:
  "for_loop fs d ks st = Inr st' \<Longrightarrow>
     \<exists>rs. snd st' = snd st @ rs \<and>
          list_all2 (\<lambda>k r. \<exists>dc. loop_body fs d k (dc, []) = Inr (Some (Copyright r), [r])) ks rs"
proof (induction ks arbitrary: st)
  case Nil
  then show ?case by simp
next
  case (Cons k ks)
  from Cons.prems obtain st1 where
    step: "loop_body fs d k st = Inr st1" and rest: "for_loop fs d ks st1 = Inr st'"
    by (auto split: sum.splits)
  from loop_body_append[OF step] obtain r where
    st1: "st1 = (Some (Copyright r), snd st @ [r])" and
    row: "loop_body fs d k (fst st, []) = Inr (Some (Copyright r), [r])"
    by blast
  from Cons.IH[OF rest] obtain rs where
    rs: "snd st' = snd st1 @ rs" and
    all: "list_all2 (\<lambda>k r. \<exists>dc. loop_body fs d k (dc, []) = Inr (Some (Copyright r), [r])) ks rs"
    by blast
  from rs st1 have "snd st' = snd st @ (r # rs)" by simp
  moreover from row all have
    "list_all2 (\<lambda>k r. \<exists>dc. loop_body fs d k (dc, []) = Inr (Some (Copyright r), [r]))
       (k # ks) (r # rs)"
    by auto
  ultimately show ?case by blast
qed

lemma for_loop_fails:
  "k \<in> set ks \<Longrightarrow> (\<And>st. isl (loop_body fs d k st)) \<Longrightarrow> isl (for_loop fs d ks st)"
proof (induction ks arbitrary: st)
  case Nil
  then show ?case by simp
next
  case (Cons a ks)
  show ?case
  proof (cases "loop_body fs d a st")
    case (Inl e)
    then show ?thesis by simp
  next
    case (Inr st1)
    with Cons.prems(2)[of st] have "a \<noteq> k" by auto
    with Cons.prems(1) have "k \<in> set ks" by simp
    from Cons.IH[OF this Cons.prems(2)] Inr show ?thesis by simp
  qed
qed

lemma set_alphabetized_dep_names: "set (alphabetized_dep_names d) = fst ` set d"
  by (simp add: alphabetized_dep_names_def dict_keys_def)

lemma dict_get_Some: "k \<in> fst ` set d \<Longrightarrow> \<exists>m. dict_get d k = Some m"
proof -
  assume "k \<in> fst ` set d"
  then have "k \<in> fst ` set (rev d)" by simp
  then have "map_of (rev d) k \<noteq> None" unfolding map_of_eq_None_iff by simp
  then show ?thesis by (auto simp: dict_get_def)
qed

lemma build_report_InrD:
  assumes "build_report fs d = Inr rs"
  shows "list_all2 (\<lambda>k r. \<exists>dc. loop_body fs d k (dc, []) = Inr (Some (Copyright r), [r]))
           (alphabetized_dep_names d) rs"
proof -
  from assms obtain st' where
    loop: "for_loop fs d (alphabetized_dep_names d) (None, []) = Inr st'" and rs: "rs = snd st'"
    by (auto simp: build_report_def split: sum.splits)
  from for_loop_InrD[OF loop] rs show ?thesis by simp
qed

subsection \<open>Lines of a file\<close>

lemma find_Some_filter: "find P xs = Some x \<Longrightarrow> \<exists>ys. filter P xs = x # ys"
  by (induction xs) (auto split: if_splits)

lemma strip_copyright_line:
  assumes "is_copyright_line line"
  shows "strip line = trim_trailing line"
proof -
  from assms have "take (length ''Copyright '') line = ''Copyright ''"
    by (simp only: is_copyright_line_def startswith_def)
  then obtain rest where "line = CHR ''C'' # rest"
    by (cases line) auto
  then have "dropWhile is_space line = line"
    by (simp add: is_space_def)
  then show ?thesis by (simp add: strip_def trim_trailing_def)
qed

lemma extract_copyright_found:
  assumes "p \<noteq> []" and "read_file fs p = Some text"
    and "find is_copyright_line (file_lines text) = Some line"
  shows "extract_copyright fs p dc = Inr (Some (trim_trailing line))"
proof -
  from find_Some_filter[OF assms(3)] obtain ys where
    f: "filter is_copyright_line (file_lines text) = line # ys" by blast
  from assms(3) have "is_copyright_line line" by (auto simp: find_Some_iff)
  then have "strip line = trim_trailing line" by (rule strip_copyright_line)
  with assms(1,2) f show ?thesis by (simp add: extract_copyright_def)
qed

lemma extract_copyright_unchanged:
  assumes "p = [] \<or> (\<exists>text. read_file fs p = Some text \<and>
             filter is_copyright_line (file_lines text) = [])"
  shows "extract_copyright fs p dc = Inr dc"
  using assms by (auto simp: extract_copyright_def)

subsection \<open>The report\<close>

lemma build_report_row:
  assumes "build_report fs d = Inr rs" and "i < length rs"
  shows "length rs = length (alphabetized_dep_names d) \<and>
         (\<exists>m dc. dict_get d (alphabetized_dep_names d ! i) = Some m \<and>
            re_search_name (alphabetized_dep_names d ! i) = Some (Component (rs ! i)) \<and>
            get_repo_url (Component (rs ! i)) m = Inr (Origin (rs ! i)) \<and>
            License (rs ! i) =
              (case licenses m of Some l \<Rightarrow> l | None \<Rightarrow> LicStr ''LICENSE NOT FOUND'') \<and>
            extract_copyright fs (case licenseFile m of Some p \<Rightarrow> p | None \<Rightarrow> []) dc
              = Inr (Some (Copyright (rs ! i))))"
proof -
  let ?ks = "alphabetized_dep_names d"
  from build_report_InrD[OF assms(1)] have
    all: "list_all2 (\<lambda>k r. \<exists>dc. loop_body fs d k (dc, []) = Inr (Some (Copyright r), [r])) ?ks rs" .
  then have len: "length ?ks = length rs" by (rule list_all2_lengthD)
  from all assms(2) obtain dc where
    "loop_body fs d (?ks ! i) (dc, []) = Inr (Some (Copyright (rs ! i)), [rs ! i])"
    by (auto dest: list_all2_nthD2)
  from loop_body_InrD[OF this] obtain m n u c where
    m: "dict_get d (?ks ! i) = Some m" and n: "re_search_name (?ks ! i) = Some n" and
    u: "get_repo_url n m = Inr u" and
    c: "extract_copyright fs (case licenseFile m of Some p \<Rightarrow> p | None \<Rightarrow> []) dc = Inr (Some c)" and
    r: "rs ! i = \<lparr>Component = n, Origin = u,
                  License = (case licenses m of Some l \<Rightarrow> l | None \<Rightarrow> LicStr ''LICENSE NOT FOUND''),
                  Copyright = c\<rparr>"
    by auto
  from r have "Component (rs ! i) = n" "Origin (rs ! i) = u" "Copyright (rs ! i) = c"
    "License (rs ! i) = (case licenses m of Some l \<Rightarrow> l | None \<Rightarrow> LicStr ''LICENSE NOT FOUND'')"
    by simp_all
  with m n u c len show ?thesis by metis
qed

text \<open>
  C6. In a report the script produces, the record of a dependency whose metadata has a
  non-empty \<^verbatim>\<open>licenseFile\<close>, whose file can be read and has a line that starts with
  \<^verbatim>\<open>Copyright \<close>, carries in its \<^verbatim>\<open>Copyright\<close> field the first such line of the file, with
  its trailing whitespace (the line terminator included) removed. The record at position
  \<open>i\<close> is the record of the \<open>i\<close>-th key in sorted order.
\<close>

theorem copyright_is_first_matching_line:
  assumes "build_report fs d = Inr rs" and "i < length rs"
    and "dict_get d (alphabetized_dep_names d ! i) = Some m"
    and "licenseFile m = Some p" and "p \<noteq> []" and "read_file fs p = Some text"
    and "find is_copyright_line (file_lines text) = Some line"
  shows "Copyright (rs ! i) = trim_trailing line"
proof -
  from build_report_row[OF assms(1,2)] assms(3) obtain dc where
    "extract_copyright fs (case licenseFile m of Some p \<Rightarrow> p | None \<Rightarrow> []) dc
       = Inr (Some (Copyright (rs ! i)))"
    by auto
  with assms(4) have "extract_copyright fs p dc = Inr (Some (Copyright (rs ! i)))" by simp
  with extract_copyright_found[OF assms(5,6,7), of dc] show ?thesis by simp
qed

text \<open>
  A licence file with Windows line ends, a title, and two copyright lines, the first with
  trailing blanks.
\<close>

theorem copyright_is_first_matching_line_witness:
  "build_report
     [(''node_modules/a/LICENSE'',
       ''The MIT License'' @ [CR, LF] @ [CR, LF] @ ''Copyright (c) 2014 A  '' @ [CR, LF] @
       ''Copyright (c) 2015 B'' @ [CR, LF])]
     [(''a@1.0.0'', \<lparr>repository = None, licenses = Some (LicStr ''MIT''),
                      licenseFile = Some ''node_modules/a/LICENSE''\<rparr>)]
   = Inr [\<lparr>Component = ''a'', Origin = ''NO REPO'', License = LicStr ''MIT'',
            Copyright = ''Copyright (c) 2014 A''\<rparr>]
   \<and> find is_copyright_line
       (file_lines (''The MIT License'' @ [CR, LF] @ [CR, LF] @ ''Copyright (c) 2014 A  '' @
          [CR, LF] @ ''Copyright (c) 2015 B'' @ [CR, LF]))
     = Some (''Copyright (c) 2014 A  '' @ [LF])
   \<and> trim_trailing (''Copyright (c) 2014 A  '' @ [LF]) = ''Copyright (c) 2014 A''"
proof -
  let ?text = "''The MIT License'' @ [CR, LF] @ [CR, LF] @ ''Copyright (c) 2014 A  '' @
          [CR, LF] @ ''Copyright (c) 2015 B'' @ [CR, LF]"
  let ?fs = "[(''node_modules/a/LICENSE'', ?text)]"
  let ?m = "\<lparr>repository = None, licenses = Some (LicStr ''MIT''),
             licenseFile = Some ''node_modules/a/LICENSE''\<rparr>"
  let ?d = "[(''a@1.0.0'', ?m)]"
  let ?rs = "[\<lparr>Component = ''a'', Origin = ''NO REPO'', License = LicStr ''MIT'',
               Copyright = ''Copyright (c) 2014 A''\<rparr>]"
  have run: "build_report ?fs ?d = Inr ?rs"
    by code_simp
  have key: "dict_get ?d (alphabetized_dep_names ?d ! 0) = Some ?m"
    by code_simp
  have content: "read_file ?fs ''node_modules/a/LICENSE'' = Some ?text"
    by (simp add: read_file_def)
  have line: "find is_copyright_line (file_lines ?text) = Some (''Copyright (c) 2014 A  '' @ [LF])"
    by code_simp
  have "Copyright (?rs ! 0) = trim_trailing (''Copyright (c) 2014 A  '' @ [LF])"
    by (rule copyright_is_first_matching_line[OF run _ key _ _ content line]) simp_all
  then have "trim_trailing (''Copyright (c) 2014 A  '' @ [LF]) = ''Copyright (c) 2014 A''"
    by simp
  with run line show ?thesis by simp
qed

text \<open>
  When the loop runs to its end, the report has one record for each key of the dependency
  graph, so as many records as there are keys, and the records follow the keys in
  ascending order: the \<open>i\<close>-th record is built from the \<open>i\<close>-th key of the sorted,
  duplicate-free list of the keys, its component being the name in that key and its
  origin and licence those of that key's metadata. The order on keys is the lexicographic
  order on code points, in which an upper-case letter comes before every lower-case
  letter. This says nothing about the graphs on which the loop raises.
\<close>

lemma completed_report_follows_sorted_keys:
  assumes "build_report fs d = Inr rs"
  shows "length rs = card (fst ` set d) \<and>
         length rs = length (alphabetized_dep_names d) \<and>
         sorted (alphabetized_dep_names d) \<and> distinct (alphabetized_dep_names d) \<and>
         set (alphabetized_dep_names d) = fst ` set d \<and>
         (\<forall>i<length rs.
            \<exists>m. dict_get d (alphabetized_dep_names d ! i) = Some m \<and>
                re_search_name (alphabetized_dep_names d ! i) = Some (Component (rs ! i)) \<and>
                get_repo_url (Component (rs ! i)) m = Inr (Origin (rs ! i)) \<and>
                License (rs ! i) =
                  (case licenses m of Some l \<Rightarrow> l | None \<Rightarrow> LicStr ''LICENSE NOT FOUND''))"
proof -
  let ?ks = "alphabetized_dep_names d"
  from build_report_InrD[OF assms] have len: "length rs = length ?ks"
    by (simp add: list_all2_lengthD)
  have dist: "distinct ?ks" and sorted: "sorted ?ks"
    by (simp_all add: alphabetized_dep_names_def dict_keys_def)
  have keys: "set ?ks = fst ` set d" by (rule set_alphabetized_dep_names)
  from dist have "card (set ?ks) = length ?ks" by (rule distinct_card)
  with keys len have card: "length rs = card (fst ` set d)" by simp
  have rows: "\<exists>m. dict_get d (?ks ! i) = Some m \<and>
        re_search_name (?ks ! i) = Some (Component (rs ! i)) \<and>
        get_repo_url (Component (rs ! i)) m = Inr (Origin (rs ! i)) \<and>
        License (rs ! i) =
          (case licenses m of Some l \<Rightarrow> l | None \<Rightarrow> LicStr ''LICENSE NOT FOUND'')"
    if "i < length rs" for i
    using build_report_row[OF assms that] by blast
  from card len sorted dist keys rows show ?thesis by blast
qed

text \<open>
  Three keys given out of order, two of them versions of one package: three records, in
  the order \<^verbatim>\<open>Base@1.0.0\<close>, \<^verbatim>\<open>a@1.0.0\<close>, \<^verbatim>\<open>a@1.0.1\<close>.
\<close>

lemma completed_report_follows_sorted_keys_example:
  "build_report
     [(''L'', ''Copyright (c) X'')]
     [(''a@1.0.1'', \<lparr>repository = None, licenses = None, licenseFile = Some ''L''\<rparr>),
      (''Base@1.0.0'', \<lparr>repository = None, licenses = None, licenseFile = Some ''L''\<rparr>),
      (''a@1.0.0'', \<lparr>repository = None, licenses = None, licenseFile = Some ''L''\<rparr>)]
   = Inr [\<lparr>Component = ''Base'', Origin = ''NO REPO'', License = LicStr ''LICENSE NOT FOUND'',
            Copyright = ''Copyright (c) X''\<rparr>,
          \<lparr>Component = ''a'', Origin = ''NO REPO'', License = LicStr ''LICENSE NOT FOUND'',
            Copyright = ''Copyright (c) X''\<rparr>,
          \<lparr>Component = ''a'', Origin = ''NO REPO'', License = LicStr ''LICENSE NOT FOUND'',
            Copyright = ''Copyright (c) X''\<rparr>]
   \<and> alphabetized_dep_names
       [(''a@1.0.1'', \<lparr>repository = None, licenses = None, licenseFile = Some ''L''\<rparr>),
        (''Base@1.0.0'', \<lparr>repository = None, licenses = None, licenseFile = Some ''L''\<rparr>),
        (''a@1.0.0'', \<lparr>repository = None, licenses = None, licenseFile = Some ''L''\<rparr>)]
     = [''Base@1.0.0'', ''a@1.0.0'', ''a@1.0.1'']
   \<and> card (fst ` set
       [(''a@1.0.1'', \<lparr>repository = None, licenses = None, licenseFile = Some ''L''\<rparr>),
        (''Base@1.0.0'', \<lparr>repository = None, licenses = None, licenseFile = Some ''L''\<rparr>),
        (''a@1.0.0'', \<lparr>repository = None, licenses = None, licenseFile = Some ''L''\<rparr>)]) = 3"
proof -
  let ?fs = "[(''L'', ''Copyright (c) X'')]"
  let ?d = "[(''a@1.0.1'', \<lparr>repository = None, licenses = None, licenseFile = Some ''L''\<rparr>),
      (''Base@1.0.0'', \<lparr>repository = None, licenses = None, licenseFile = Some ''L''\<rparr>),
      (''a@1.0.0'', \<lparr>repository = None, licenses = None, licenseFile = Some ''L''\<rparr>)]"
  let ?r = "\<lambda>n. \<lparr>Component = n, Origin = ''NO REPO'', License = LicStr ''LICENSE NOT FOUND'',
            Copyright = ''Copyright (c) X''\<rparr>"
  have run: "build_report ?fs ?d = Inr [?r ''Base'', ?r ''a'', ?r ''a'']"
    by code_simp
  have keys: "alphabetized_dep_names ?d = [''Base@1.0.0'', ''a@1.0.0'', ''a@1.0.1'']"
    by code_simp
  from completed_report_follows_sorted_keys[OF run]
  have "length [?r ''Base'', ?r ''a'', ?r ''a''] = card (fst ` set ?d)"
    by blast
  then have "card (fst ` set ?d) = 3" by simp
  with run keys show ?thesis by simp
qed

text \<open>
  C7. The claim is that the report has exactly one record for each key of every
  well-formed graph. The field \<^verbatim>\<open>licenseFile\<close> is optional, and the graph
  \<^verbatim>\<open>{"eyes@0.1.0": {"licenses": ["MIT"]}}\<close> is well formed: it has one key, and the loop
  raises \<^verbatim>\<open>NameError\<close> at line 45 in the iteration for that key, because
  \<^verbatim>\<open>dep_copyright\<close> has no value before the first licence line is found. No list of
  records is produced, where the claim has one record.
\<close>

theorem no_report_for_first_key_without_licence_file:
  "alphabetized_dep_names
     [(''eyes@0.1.0'', \<lparr>repository = None, licenses = Some (LicList [''MIT'']),
                         licenseFile = None\<rparr>)]
     = [''eyes@0.1.0''] \<and>
   build_report []
     [(''eyes@0.1.0'', \<lparr>repository = None, licenses = Some (LicList [''MIT'']),
                         licenseFile = None\<rparr>)]
     = Inl NameError"
proof -
  have "alphabetized_dep_names
     [(''eyes@0.1.0'', \<lparr>repository = None, licenses = Some (LicList [''MIT'']),
                         licenseFile = None\<rparr>)]
     = [''eyes@0.1.0'']"
    by code_simp
  moreover have "build_report []
     [(''eyes@0.1.0'', \<lparr>repository = None, licenses = Some (LicList [''MIT'']),
                         licenseFile = None\<rparr>)]
     = Inl NameError"
    by code_simp
  ultimately show ?thesis by simp
qed

text \<open>
  C1. The claim is that the record of a dependency without a \<^verbatim>\<open>licenseFile\<close> has an empty
  \<^verbatim>\<open>Copyright\<close> field. The variable \<^verbatim>\<open>dep_copyright\<close> is assigned only when a line is
  found and is never reset, so such a record repeats the line found for an earlier key:
  here \<^verbatim>\<open>b@1.0.0\<close> has no licence file and its record carries the copyright of
  \<^verbatim>\<open>a@1.0.0\<close>.
\<close>

theorem copyright_carried_over:
  "build_report
     [(''node_modules/a/LICENSE'', ''Copyright (c) A'')]
     [(''a@1.0.0'', \<lparr>repository = None, licenses = Some (LicStr ''MIT''),
                      licenseFile = Some ''node_modules/a/LICENSE''\<rparr>),
      (''b@1.0.0'', \<lparr>repository = None, licenses = Some (LicStr ''ISC''),
                      licenseFile = None\<rparr>)]
   = Inr [\<lparr>Component = ''a'', Origin = ''NO REPO'', License = LicStr ''MIT'',
            Copyright = ''Copyright (c) A''\<rparr>,
          \<lparr>Component = ''b'', Origin = ''NO REPO'', License = LicStr ''ISC'',
            Copyright = ''Copyright (c) A''\<rparr>]"
  by code_simp

subsection \<open>Runs that abort\<close>

lemma main_build_fails:
  assumes "check_output scan = Inr raw" and "loads raw = Some d" and "build_report fs d = Inl e"
  shows "main loads render writable scan fs = (Some e, fs)"
  using assms by (simp add: main_def)

text \<open>
  C8. When the scanner exits with a non-zero return code, or exits with zero and prints
  text that is not valid JSON, the run ends with an exception
  (\<^verbatim>\<open>CalledProcessError\<close>, \<^verbatim>\<open>JSONDecodeError\<close>) and the file system is as it was before
  the run: no report file has been created, and one that existed is untouched.
\<close>

theorem scan_failure_writes_nothing:
  "(rc \<noteq> 0 \<longrightarrow>
      main loads render writable (Exited rc out) fs = (Some (CalledProcessError rc), fs)) \<and>
   (loads out = None \<longrightarrow>
      main loads render writable (Exited 0 out) fs = (Some JSONDecodeError, fs))"
  by (simp add: main_def check_output_def)

theorem scan_failure_writes_nothing_witness:
  "main (\<lambda>raw. None) (\<lambda>rows. ''Component,Origin,License,Copyright'') True
     (Exited 1 []) [(csv_path, ''an older report'')]
     = (Some (CalledProcessError 1), [(csv_path, ''an older report'')]) \<and>
   main (\<lambda>raw. None) (\<lambda>rows. ''Component,Origin,License,Copyright'') True
     (Exited 0 ''npm ERR!'') [(csv_path, ''an older report'')]
     = (Some JSONDecodeError, [(csv_path, ''an older report'')])"
  using
    scan_failure_writes_nothing[of 1 "\<lambda>raw. None" "\<lambda>rows. ''Component,Origin,License,Copyright''"
      True "[]" "[(csv_path, ''an older report'')]"]
    scan_failure_writes_nothing[of 0 "\<lambda>raw. None" "\<lambda>rows. ''Component,Origin,License,Copyright''"
      True "''npm ERR!''" "[(csv_path, ''an older report'')]"]
  by simp

text \<open>
  C9 (amended). Let the first key in sorted order match the name pattern and let its
  origin resolve without an exception. If its metadata has no \<^verbatim>\<open>licenseFile\<close>, or an empty
  one, or one whose file can be read and has no line that starts with \<^verbatim>\<open>Copyright \<close>, then
  the run ends with \<^verbatim>\<open>NameError\<close>, raised where line 45 reads the unbound
  \<^verbatim>\<open>dep_copyright\<close>, and the file system is as it was before the run: no report is
  written.
\<close>

theorem first_key_without_copyright_raises_NameError:
  assumes "check_output scan = Inr raw" and "loads raw = Some d"
    and "alphabetized_dep_names d = k # ks" and "dict_get d k = Some m"
    and "re_search_name k = Some n" and "get_repo_url n m = Inr u"
    and "licenseFile m = None \<or> licenseFile m = Some [] \<or>
         (\<exists>p text. licenseFile m = Some p \<and> read_file fs p = Some text \<and>
            filter is_copyright_line (file_lines text) = [])"
  shows "main loads render writable scan fs = (Some NameError, fs)"
proof -
  let ?p = "case licenseFile m of Some p \<Rightarrow> p | None \<Rightarrow> []"
  from assms(7) have "?p = [] \<or> (\<exists>text. read_file fs ?p = Some text \<and>
      filter is_copyright_line (file_lines text) = [])"
    by auto
  then have "extract_copyright fs ?p None = Inr None"
    by (rule extract_copyright_unchanged)
  with assms(4,5,6) have "loop_body fs d k (None, []) = Inl NameError"
    by (simp add: loop_body_def)
  with assms(3) have "build_report fs d = Inl NameError"
    by (simp add: build_report_def)
  with assms(1,2) show ?thesis by (simp add: main_build_fails)
qed

text \<open>The graph \<^verbatim>\<open>{"foo@1.0.0": {"repository": "https://github.com/x/foo", "licenses": "MIT"}}\<close>.\<close>

theorem first_key_without_copyright_raises_NameError_witness:
  "main (\<lambda>raw. Some [(''foo@1.0.0'', \<lparr>repository = Some ''https://github.com/x/foo'',
                                          licenses = Some (LicStr ''MIT''),
                                          licenseFile = None\<rparr>)])
        (\<lambda>rows. ''Component,Origin,License,Copyright'') True (Exited 0 ''{}'') []
     = (Some NameError, [])"
proof -
  let ?m = "\<lparr>repository = Some ''https://github.com/x/foo'', licenses = Some (LicStr ''MIT''),
             licenseFile = None\<rparr>"
  let ?d = "[(''foo@1.0.0'', ?m)]"
  let ?loads = "\<lambda>raw :: string. Some ?d"
  have 1: "check_output (Exited 0 ''{}'') = Inr ''{}''"
    by (simp add: check_output_def)
  have 3: "alphabetized_dep_names ?d = ''foo@1.0.0'' # []" by code_simp
  have 4: "dict_get ?d ''foo@1.0.0'' = Some ?m" by (simp add: dict_get_def)
  have 5: "re_search_name ''foo@1.0.0'' = Some ''foo''" by code_simp
  have 6: "get_repo_url ''foo'' ?m = Inr ''github.com/x/foo''" by code_simp
  have 7: "licenseFile ?m = None \<or> licenseFile ?m = Some [] \<or>
         (\<exists>p text. licenseFile ?m = Some p \<and> read_file [] p = Some text \<and>
            filter is_copyright_line (file_lines text) = [])"
    by simp
  show ?thesis
    using first_key_without_copyright_raises_NameError[where loads = ?loads and d = ?d,
        OF 1 _ 3 4 5 6 7]
    by simp
qed

text \<open>
  C9 as stated fails where the iteration raises before it reaches line 45: the only key
  \<^verbatim>\<open>foo\<close> has no \<^verbatim>\<open>@\<close>, its metadata has no \<^verbatim>\<open>licenseFile\<close>, and the exception is
  \<^verbatim>\<open>AttributeError\<close>, from line 27.
\<close>

theorem first_key_without_copyright_counterexample:
  "alphabetized_dep_names [(''foo'', \<lparr>repository = None, licenses = None, licenseFile = None\<rparr>)]
     = [''foo''] \<and>
   licenseFile \<lparr>repository = None, licenses = None, licenseFile = None\<rparr> = None \<and>
   build_report [] [(''foo'', \<lparr>repository = None, licenses = None, licenseFile = None\<rparr>)]
     = Inl AttributeError \<and>
   AttributeError \<noteq> NameError"
proof -
  have "alphabetized_dep_names
          [(''foo'', \<lparr>repository = None, licenses = None, licenseFile = None\<rparr>)] = [''foo'']"
    by code_simp
  moreover have
    "build_report [] [(''foo'', \<lparr>repository = None, licenses = None, licenseFile = None\<rparr>)]
       = Inl AttributeError"
    by code_simp
  ultimately show ?thesis by simp
qed

text \<open>
  C10. The name extraction is not total: on a key in which no \<^verbatim>\<open>@\<close> has a word character
  or a hyphen just before it (a key with no \<^verbatim>\<open>@\<close> at all is one), the pattern does not
  match, the iteration for that key raises \<^verbatim>\<open>AttributeError\<close> whatever the state is, and
  a run on a graph with such a key ends with an exception and writes nothing.
\<close>

theorem unmatched_key_aborts_run:
  assumes "check_output scan = Inr raw" and "loads raw = Some d" and "k \<in> fst ` set d"
    and "\<forall>i. 0 < i \<and> i < length k \<and> k ! i = CHR ''@'' \<longrightarrow> \<not> name_char (k ! (i - 1))"
  shows "re_search_name k = None \<and>
         (\<forall>st. loop_body fs d k st = Inl AttributeError) \<and>
         (\<exists>e. main loads render writable scan fs = (Some e, fs))"
proof -
  have none: "re_search_name k = None"
  proof (cases "re_search_name k")
    case None
    then show ?thesis .
  next
    case (Some g)
    from re_search_name_SomeD[OF this] assms(4) show ?thesis by blast
  qed
  from dict_get_Some[OF assms(3)] obtain m where "dict_get d k = Some m" by blast
  with none have body: "loop_body fs d k st = Inl AttributeError" for st
    by (simp add: loop_body_def)
  from assms(3) have "k \<in> set (alphabetized_dep_names d)"
    by (simp add: set_alphabetized_dep_names)
  then have "isl (for_loop fs d (alphabetized_dep_names d) (None, []))"
    by (rule for_loop_fails) (simp add: body)
  then obtain e where "build_report fs d = Inl e"
    by (auto simp: build_report_def isl_def)
  with assms(1,2) have "main loads render writable scan fs = (Some e, fs)"
    by (simp add: main_build_fails)
  with none body show ?thesis by blast
qed

text \<open>
  A graph with the well-formed key \<^verbatim>\<open>a@1.0.0\<close> and the key \<^verbatim>\<open>left-pad\<close>, which has no
  \<^verbatim>\<open>@\<close>.
\<close>

theorem unmatched_key_aborts_run_witness:
  "re_search_name ''left-pad'' = None \<and>
   main (\<lambda>raw. Some [(''left-pad'', \<lparr>repository = None, licenses = None,
                                       licenseFile = Some ''L''\<rparr>),
                       (''a@1.0.0'', \<lparr>repository = None, licenses = None,
                                      licenseFile = Some ''L''\<rparr>)])
        (\<lambda>rows. ''Component,Origin,License,Copyright'') True (Exited 0 ''{}'')
        [(''L'', ''Copyright (c) X'')]
     = (Some AttributeError, [(''L'', ''Copyright (c) X'')])"
proof -
  let ?d = "[(''left-pad'', \<lparr>repository = None, licenses = None, licenseFile = Some ''L''\<rparr>),
             (''a@1.0.0'', \<lparr>repository = None, licenses = None, licenseFile = Some ''L''\<rparr>)]"
  let ?loads = "\<lambda>raw :: string. Some ?d"
  let ?render = "\<lambda>rows :: report_record list. ''Component,Origin,License,Copyright''"
  let ?fs = "[(''L'', ''Copyright (c) X'')]"
  have 1: "check_output (Exited 0 ''{}'') = Inr ''{}''"
    by (simp add: check_output_def)
  have 3: "''left-pad'' \<in> fst ` set ?d" by simp
  have "CHR ''@'' \<notin> set ''left-pad''" by simp
  then have 4: "\<forall>i. 0 < i \<and> i < length ''left-pad'' \<and> ''left-pad'' ! i = CHR ''@''
      \<longrightarrow> \<not> name_char (''left-pad'' ! (i - 1))"
    by (metis nth_mem)
  from unmatched_key_aborts_run[where loads = ?loads and d = ?d and fs = ?fs
        and render = ?render and writable = True, OF 1 _ 3 4]
  obtain e where
    none: "re_search_name ''left-pad'' = None" and
    run: "main ?loads ?render True (Exited 0 ''{}'') ?fs = (Some e, ?fs)"
    by blast
  have "main ?loads ?render True (Exited 0 ''{}'') ?fs = (Some AttributeError, ?fs)"
    by code_simp
  with none show ?thesis by simp
qed

end
